theory Spec2Isabelle
  imports Main "HOL-Library.Word"
begin

unbundle bit_operations_syntax

section \<open>Strings and lexical paths\<close>

text \<open>
  The package is written against Go's \<^verbatim>\<open>strings\<close>, \<^verbatim>\<open>path\<close> and
  \<^verbatim>\<open>path/filepath\<close> packages. Go strings are byte sequences, here \<^typ>\<open>string\<close>.
  The path separator is the one of a Unix build, where \<^verbatim>\<open>path\<close> and
  \<^verbatim>\<open>path/filepath\<close> agree and a path has no volume name.
\<close>

definition GDDirSuffix :: string where
  "GDDirSuffix = ''.gd''"

definition PathSeparator :: string where
  "PathSeparator = ''/''"

definition IsPathSeparator :: "char \<Rightarrow> bool" where
  "IsPathSeparator c = (c = CHR ''/'')"

text \<open>\<^verbatim>\<open>strings.TrimRight(s, cutset)\<close>: drop every trailing byte that occurs in the cutset.\<close>

definition strings_TrimRight :: "string \<Rightarrow> string \<Rightarrow> string" where
  "strings_TrimRight s cutset = rev (dropWhile (\<lambda>c. c \<in> set cutset) (rev s))"

definition strings_HasPrefix :: "string \<Rightarrow> string \<Rightarrow> bool" where
  "strings_HasPrefix s prefix = (length prefix \<le> length s \<and> take (length prefix) s = prefix)"

fun strings_Join :: "string list \<Rightarrow> string \<Rightarrow> string" where
  "strings_Join [] sep = []"
| "strings_Join [e] sep = e"
| "strings_Join (e # es) sep = e @ sep @ strings_Join es sep"

text \<open>
  \<^verbatim>\<open>filepath.Split(path)\<close>: the text up to and including the last separator, and the
  text after it.
\<close>

definition filepath_Split :: "string \<Rightarrow> string \<times> string" where
  "filepath_Split p =
     (let file = rev (takeWhile (\<lambda>c. \<not> IsPathSeparator c) (rev p))
      in (take (length p - length file) p, file))"

text \<open>
  \<^verbatim>\<open>filepath.Base(path)\<close>: \<^verbatim>\<open>"."\<close> for the empty path; otherwise the trailing
  separators are stripped, the last element is taken, and a path of separators only
  gives the separator.
\<close>

definition filepath_Base :: "string \<Rightarrow> string" where
  "filepath_Base p =
     (if p = [] then ''.''
      else let stripped = rev (dropWhile IsPathSeparator (rev p));
               elem = snd (filepath_Split stripped)
           in if elem = [] then ''/'' else elem)"

text \<open>
  \<^verbatim>\<open>path.Clean\<close> works on the elements between separators: empty elements and
  \<^verbatim>\<open>"."\<close> are dropped, \<^verbatim>\<open>".."\<close> removes the element before it, is dropped at the
  root, and is kept at the front of a path that is not rooted.
\<close>

primrec elements :: "string \<Rightarrow> string list" where
  "elements [] = [[]]"
| "elements (c # cs) =
     (if IsPathSeparator c then [] # elements cs
      else (case elements cs of [] \<Rightarrow> [[c]] | e # es \<Rightarrow> (c # e) # es))"

fun clean_elements :: "bool \<Rightarrow> string list \<Rightarrow> string list \<Rightarrow> string list" where
  "clean_elements rooted out [] = rev out"
| "clean_elements rooted out (e # es) =
     (if e = [] \<or> e = ''.'' then clean_elements rooted out es
      else if e = ''..'' then
        (case out of
           [] \<Rightarrow> if rooted then clean_elements rooted [] es
                 else clean_elements rooted [''..''] es
         | e' # below \<Rightarrow>
             if e' = ''..'' then clean_elements rooted (''..'' # out) es
             else clean_elements rooted below es)
      else clean_elements rooted (e # out) es)"

definition path_Clean :: "string \<Rightarrow> string" where
  "path_Clean p =
     (if p = [] then ''.''
      else let rooted = IsPathSeparator (hd p);
               out = (if rooted then ''/'' else []) @
                     strings_Join (clean_elements rooted [] (elements p)) ''/''
           in if out = [] then ''.'' else out)"

text \<open>
  \<^verbatim>\<open>path.Join(elem...)\<close>: the empty string when every element is empty; otherwise the
  elements from the first non-empty one on, joined by separators and cleaned.
\<close>

definition path_Join :: "string list \<Rightarrow> string" where
  "path_Join elem =
     (let buf = fold (\<lambda>e buf. if buf \<noteq> [] \<or> e \<noteq> []
                               then (if buf \<noteq> [] then buf @ ''/'' else buf) @ e
                               else buf) elem []
      in if buf = [] then [] else path_Clean buf)"

definition filepath_Join :: "string list \<Rightarrow> string" where
  "filepath_Join elem = path_Join elem"

section \<open>Errors and the operating system\<close>

text \<open>
  A Go \<^verbatim>\<open>error\<close> is either a system error carrying an errno, or a message built by
  \<^verbatim>\<open>errors.New\<close> or \<^verbatim>\<open>fmt.Errorf\<close>. \<^verbatim>\<open>os.IsNotExist\<close> holds of \<^verbatim>\<open>ENOENT\<close> only,
  \<^verbatim>\<open>os.IsExist\<close> of \<^verbatim>\<open>EEXIST\<close> and \<^verbatim>\<open>ENOTEMPTY\<close>.
\<close>

datatype errno = ENOENT | EEXIST | ENOTEMPTY | ENOTDIR | EISDIR | EACCES | EIO

datatype error = PathError errno | ErrorString string

fun os_IsNotExist :: "error \<Rightarrow> bool" where
  "os_IsNotExist (PathError e) = (e = ENOENT)"
| "os_IsNotExist (ErrorString m) = False"

fun os_IsExist :: "error \<Rightarrow> bool" where
  "os_IsExist (PathError e) = (e = EEXIST \<or> e = ENOTEMPTY)"
| "os_IsExist (ErrorString m) = False"

datatype FileInfo = FileInfo (IsDir: bool)

text \<open>
  The system calls the package makes, over a state \<^typ>\<open>'s\<close> of the file system.
  \<^verbatim>\<open>os.Stat\<close> and \<^verbatim>\<open>ioutil.ReadFile\<close> observe the state; the others return the state
  they leave behind together with their error (\<open>None\<close> is Go's \<^verbatim>\<open>nil\<close>). A call that
  fails returns no \<^verbatim>\<open>FileInfo\<close>, so \<open>Inl\<close> is the case \<^verbatim>\<open>info == nil\<close>.
  The last argument of the creating calls is the \<^verbatim>\<open>os.FileMode\<close>, a 32-bit word whose
  top bit is \<^verbatim>\<open>os.ModeDir\<close>.
\<close>

type_synonym FileMode = "32 word"

definition os_ModeDir :: FileMode where
  "os_ModeDir = push_bit 31 1"

record 's os =
  os_Stat :: "'s \<Rightarrow> string \<Rightarrow> error + FileInfo"
  os_MkdirAll :: "'s \<Rightarrow> string \<Rightarrow> FileMode \<Rightarrow> error option \<times> 's"
  os_Symlink :: "'s \<Rightarrow> string \<Rightarrow> string \<Rightarrow> error option \<times> 's"
  os_RemoveAll :: "'s \<Rightarrow> string \<Rightarrow> error option \<times> 's"
  ioutil_ReadFile :: "'s \<Rightarrow> string \<Rightarrow> error + string"
  ioutil_WriteFile :: "'s \<Rightarrow> string \<Rightarrow> string \<Rightarrow> FileMode \<Rightarrow> error option \<times> 's"

section \<open>The data of the package\<close>

record Context =
  ClientId :: string
  ClientSecret :: string
  RefreshToken :: string
  AbsPath :: string

record Index =
  FileId :: string
  Etag :: string
  Md5Checksum :: string
  MimeType :: string
  ModTime :: "64 word"
  Version :: "64 word"
  Remote :: bool

record IndexFile =
  Name :: string
  Index :: "Index list"

record MountPoint =
  CanClean :: bool
  Name :: string
  AbsPath :: string
  MountPath :: string

record Mount =
  CreatedMountDir :: string
  ShortestMountRoot :: string
  Points :: "MountPoint list"

text \<open>
  \<^verbatim>\<open>encoding/json\<close> for the two persisted records. Unmarshalling fills a value that
  the caller allocated, and returns it with the error.
\<close>

record json =
  Marshal_Context :: "Context \<Rightarrow> error + string"
  Marshal_IndexFile :: "IndexFile \<Rightarrow> error + string"
  Unmarshal_IndexFile :: "string \<Rightarrow> IndexFile \<Rightarrow> IndexFile \<times> error option"

section \<open>Mount points\<close>

definition mounted :: "MountPoint \<Rightarrow> bool" where
  "mounted mpt = CanClean mpt"

definition Unmount :: "'s os \<Rightarrow> MountPoint \<Rightarrow> 's \<Rightarrow> error option \<times> 's" where
  "Unmount sys mpt s =
     (if mounted mpt then os_RemoveAll sys s (MountPath mpt) else (None, s))"

section \<open>Paths of a context\<close>

definition gdPath :: "string \<Rightarrow> string" where
  "gdPath absPath = path_Join [absPath, GDDirSuffix]"

definition credentialsPath :: "string \<Rightarrow> string" where
  "credentialsPath absPath = path_Join [gdPath absPath, ''credentials.json'']"


section \<open>Persisted records\<close>

text \<open>
  \<^verbatim>\<open>Context.Write\<close> stores the credentials under the context's own root, readable
  by the owner only (mode \<^verbatim>\<open>0600\<close>).
\<close>

definition Context_Write :: "'s os \<Rightarrow> json \<Rightarrow> Context \<Rightarrow> 's \<Rightarrow> error option \<times> 's" where
  "Context_Write sys js c s =
     (case Marshal_Context js c of
        Inl err \<Rightarrow> (Some err, s)
      | Inr data \<Rightarrow> ioutil_WriteFile sys s (credentialsPath (Context.AbsPath c)) data 384)"



section \<open>Initialising a context\<close>

text \<open>
  The results are named in the source: \<^verbatim>\<open>pathGD\<close>, \<^verbatim>\<open>firstInit\<close>, \<^verbatim>\<open>c\<close> and
  \<^verbatim>\<open>err\<close>, and a bare \<^verbatim>\<open>return\<close> returns their current values. \<open>initContext\<close> is the
  part of \<^verbatim>\<open>Initialize\<close> from \<^verbatim>\<open>os.MkdirAll\<close> on.
\<close>

definition initContext ::
  "'s os \<Rightarrow> json \<Rightarrow> string \<Rightarrow> string \<Rightarrow> bool \<Rightarrow> 's \<Rightarrow>
     (string \<times> bool \<times> Context option \<times> error option) \<times> 's" where
  "initContext sys js absPath pathGD firstInit s =
     (case os_MkdirAll sys s pathGD 493 of
        (Some err, s') \<Rightarrow> ((pathGD, firstInit, None, Some err), s')
      | (None, s') \<Rightarrow>
          (let c = \<lparr>ClientId = [], ClientSecret = [], RefreshToken = [], AbsPath = absPath\<rparr>;
               (err, s'') = Context_Write sys js c s'
           in ((pathGD, firstInit, Some c, err), s'')))"

definition Initialize ::
  "'s os \<Rightarrow> json \<Rightarrow> string \<Rightarrow> 's \<Rightarrow>
     (string \<times> bool \<times> Context option \<times> error option) \<times> 's" where
  "Initialize sys js absPath s =
     (let pathGD = gdPath absPath in
      case os_Stat sys s pathGD of
        Inl sErr \<Rightarrow>
          if os_IsNotExist sErr then initContext sys js absPath pathGD True s
          else if \<not> os_IsExist sErr then ((pathGD, False, None, None), s)
          else initContext sys js absPath pathGD False s
      | Inr sInfo \<Rightarrow>
          if \<not> IsDir sInfo
          then ((pathGD, False, None, Some (ErrorString (pathGD @ '' is not a directory''))), s)
          else initContext sys js absPath pathGD False s)"

section \<open>Building the mount overlay\<close>

function LeastNonExistantRoot_loop :: "'s os \<Rightarrow> 's \<Rightarrow> string \<Rightarrow> string \<Rightarrow> string" where
  "LeastNonExistantRoot_loop sys s last_seen p =
     (if p = [] then last_seen
      else case os_Stat sys s p of
             Inr fInfo \<Rightarrow> last_seen
           | Inl e \<Rightarrow>
               LeastNonExistantRoot_loop sys s p
                 (fst (filepath_Split (strings_TrimRight p PathSeparator))))"
  by pat_completeness auto
termination
proof (relation "measure (\<lambda>(sys, s, last_seen, p). length p)")
  show "wf (measure (\<lambda>(sys, s, last_seen, p). length p))"
    by simp
next
  fix sys :: "'s os" and s :: 's and last_seen p :: string and e :: error
  assume nonempty: "p \<noteq> []"
  define t where "t = strings_TrimRight p PathSeparator"
  have t_le: "length t \<le> length p"
    unfolding t_def strings_TrimRight_def
    by (metis length_dropWhile_le length_rev)
  have "length (fst (filepath_Split t)) < length p"
  proof (cases "t = []")
    case True
    with nonempty show ?thesis
      by (simp add: filepath_Split_def)
  next
    case False
    then have "rev t \<noteq> []"
      by simp
    moreover have "rev t = dropWhile (\<lambda>c. c \<in> set PathSeparator) (rev p)"
      by (simp add: t_def strings_TrimRight_def)
    ultimately have "hd (rev t) \<notin> set PathSeparator"
      by (metis hd_dropWhile)
    then have "\<not> IsPathSeparator (hd (rev t))"
      by (simp add: IsPathSeparator_def PathSeparator_def)
    with \<open>rev t \<noteq> []\<close> have "takeWhile (\<lambda>c. \<not> IsPathSeparator c) (rev t) \<noteq> []"
      by (cases "rev t") auto
    then have "0 < length (takeWhile (\<lambda>c. \<not> IsPathSeparator c) (rev t))"
      by simp
    moreover have "0 < length t"
      using False by simp
    ultimately have "length t - length (takeWhile (\<lambda>c. \<not> IsPathSeparator c) (rev t)) < length t"
      by arith
    with t_le show ?thesis
      by (simp add: filepath_Split_def Let_def)
  qed
  then show "((sys, s, p, fst (filepath_Split (strings_TrimRight p PathSeparator))),
              (sys, s, last_seen, p)) \<in> measure (\<lambda>(sys, s, last_seen, p). length p)"
    by (simp add: t_def)
qed

declare LeastNonExistantRoot_loop.simps [simp del]

definition LeastNonExistantRoot :: "'s os \<Rightarrow> 's \<Rightarrow> string \<Rightarrow> string" where
  "LeastNonExistantRoot sys s contextAbsPath = LeastNonExistantRoot_loop sys s [] contextAbsPath"

text \<open>
  \<open>linkPath\<close> is the body of the loop of \<^verbatim>\<open>MountPoints\<close> for a path that was not
  visited before: the result is \<open>None\<close> where the source says \<^verbatim>\<open>continue\<close>, and the
  mount point to append otherwise.
\<close>

definition linkPath ::
  "'s os \<Rightarrow> string \<Rightarrow> string \<Rightarrow> bool \<Rightarrow> string \<Rightarrow> 's \<Rightarrow> MountPoint option \<times> 's" where
  "linkPath sys contextPath contextAbsPath hidden path s =
     (case os_Stat sys s path of
        Inl err \<Rightarrow> (None, s)
      | Inr localinfo \<Rightarrow>
          (let base = filepath_Base path in
           if \<not> hidden \<and> strings_HasPrefix base ''.'' then (None, s)
           else
             (let mountPath = filepath_Join [contextAbsPath, base];
                  (err, s') = os_Symlink sys s path mountPath
              in if err \<noteq> None \<and> \<not> os_IsExist (the err) then (None, s')
                 else
                   (let canClean = (err = None);
                        relPath = (if contextPath = [] then strings_Join [[], base] ''/''
                                   else strings_Join [[], contextPath, base] ''/'')
                    in (Some \<lparr>CanClean = canClean, Name = relPath,
                               AbsPath = path, MountPath = mountPath\<rparr>, s')))))"

fun linkPaths ::
  "'s os \<Rightarrow> string \<Rightarrow> string \<Rightarrow> bool \<Rightarrow> string list \<Rightarrow> (string \<rightharpoonup> bool) \<Rightarrow>
     MountPoint list \<Rightarrow> 's \<Rightarrow> MountPoint list \<times> 's" where
  "linkPaths sys contextPath contextAbsPath hidden [] visitors mtPoints s = (mtPoints, s)"
| "linkPaths sys contextPath contextAbsPath hidden (path # paths) visitors mtPoints s =
     (if visitors path \<noteq> None
      then linkPaths sys contextPath contextAbsPath hidden paths visitors mtPoints s
      else
        (case linkPath sys contextPath contextAbsPath hidden path s of
           (None, s') \<Rightarrow>
             linkPaths sys contextPath contextAbsPath hidden paths
               (visitors(path \<mapsto> True)) mtPoints s'
         | (Some mpt, s') \<Rightarrow>
             linkPaths sys contextPath contextAbsPath hidden paths
               (visitors(path \<mapsto> True)) (mtPoints @ [mpt]) s'))"

text \<open>
  \<open>mountAll\<close> is \<^verbatim>\<open>MountPoints\<close> from the declaration of \<^verbatim>\<open>mtPoints\<close> to its end:
  the loop over the paths and the construction of the \<^verbatim>\<open>Mount\<close>. The line the source
  prints when \<^verbatim>\<open>os.MkdirAll\<close> fails goes to the standard output, which is not part of
  the state.
\<close>

definition mountAll ::
  "'s os \<Rightarrow> string \<Rightarrow> string \<Rightarrow> string list \<Rightarrow> bool \<Rightarrow> bool \<Rightarrow> string \<Rightarrow> string list \<Rightarrow> 's \<Rightarrow>
     (Mount option \<times> string list) \<times> 's" where
  "mountAll sys contextPath contextAbsPath paths hidden createdMountDir shortestMountRoot sources s =
     (let (mtPoints, s') = linkPaths sys contextPath contextAbsPath hidden paths Map.empty [] s;
          mount = (if length mtPoints \<ge> 1
                   then Some \<lparr>CreatedMountDir = (if createdMountDir then contextAbsPath else []),
                              ShortestMountRoot = (if createdMountDir then shortestMountRoot else []),
                              Points = mtPoints\<rparr>
                   else None)
      in ((mount, sources), s'))"

definition MountPoints ::
  "'s os \<Rightarrow> string \<Rightarrow> string \<Rightarrow> string list \<Rightarrow> bool \<Rightarrow> 's \<Rightarrow>
     (Mount option \<times> string list) \<times> 's" where
  "MountPoints sys contextPath contextAbsPath paths hidden s =
     (case os_Stat sys s contextAbsPath of
        Inr info \<Rightarrow> mountAll sys contextPath contextAbsPath paths hidden False [] [] s
      | Inl fErr \<Rightarrow>
          if \<not> os_IsNotExist fErr then ((None, []), s)
          else
            (let sRoot = LeastNonExistantRoot sys s contextAbsPath;
                 shortestMountRoot = (if sRoot \<noteq> [] then sRoot else []);
                 sources = (if sRoot \<noteq> [] then [sRoot] else [])
             in case os_MkdirAll sys s contextAbsPath (os_ModeDir OR 493) of
                  (Some mkErr, s') \<Rightarrow> ((None, sources), s')
                | (None, s') \<Rightarrow>
                    mountAll sys contextPath contextAbsPath paths hidden True
                      shortestMountRoot sources s'))"

section \<open>A reference file system\<close>

text \<open>
  The functions above are defined for every behaviour of the operating system. The
  concrete instance below is a small Unix-like file system on which they can be run:
  a table from absolute, cleaned paths to nodes, in which the root is always a
  directory, the working directory is the root, and an entry is reachable only through
  directories. Links are leaves: the instance does not follow them.
\<close>

datatype node = Directory | Regular string | Link string

type_synonym files = "(string \<times> node) list"

definition node_at :: "files \<Rightarrow> string \<Rightarrow> node option" where
  "node_at fs q = (if q = ''/'' then Some Directory else map_of fs q)"

definition child :: "string \<Rightarrow> string \<Rightarrow> string" where
  "child dir e = (if dir = ''/'' then dir @ e else dir @ ''/'' @ e)"

definition absolute :: "string \<Rightarrow> string list" where
  "absolute p = clean_elements True [] (elements p)"

fun lookup_from :: "files \<Rightarrow> string \<Rightarrow> string list \<Rightarrow> errno + node" where
  "lookup_from fs dir [] = (case node_at fs dir of None \<Rightarrow> Inl ENOENT | Some n \<Rightarrow> Inr n)"
| "lookup_from fs dir (e # es) =
     (case node_at fs dir of
        None \<Rightarrow> Inl ENOENT
      | Some Directory \<Rightarrow> lookup_from fs (child dir e) es
      | Some (Regular d) \<Rightarrow> Inl ENOTDIR
      | Some (Link t) \<Rightarrow> Inl ENOTDIR)"

definition resolve :: "files \<Rightarrow> string \<Rightarrow> errno + node" where
  "resolve fs p = (if p = [] then Inl ENOENT else lookup_from fs ''/'' (absolute p))"

definition fs_Stat :: "files \<Rightarrow> string \<Rightarrow> error + FileInfo" where
  "fs_Stat fs p =
     (case resolve fs p of
        Inl e \<Rightarrow> Inl (PathError e)
      | Inr Directory \<Rightarrow> Inr (FileInfo True)
      | Inr (Regular d) \<Rightarrow> Inr (FileInfo False)
      | Inr (Link t) \<Rightarrow> Inr (FileInfo False))"

fun mkdirs :: "files \<Rightarrow> string \<Rightarrow> string list \<Rightarrow> error option \<times> files" where
  "mkdirs fs dir [] = (None, fs)"
| "mkdirs fs dir (e # es) =
     (case node_at fs (child dir e) of
        None \<Rightarrow> mkdirs (fs @ [(child dir e, Directory)]) (child dir e) es
      | Some Directory \<Rightarrow> mkdirs fs (child dir e) es
      | Some (Regular d) \<Rightarrow> (Some (PathError ENOTDIR), fs)
      | Some (Link t) \<Rightarrow> (Some (PathError ENOTDIR), fs))"

definition fs_MkdirAll :: "files \<Rightarrow> string \<Rightarrow> FileMode \<Rightarrow> error option \<times> files" where
  "fs_MkdirAll fs p perm =
     (if p = [] then (Some (PathError ENOENT), fs) else mkdirs fs ''/'' (absolute p))"

definition path_of :: "string list \<Rightarrow> string" where
  "path_of es = ''/'' @ strings_Join es ''/''"

text \<open>
  \<open>create fs p n\<close> puts the node \<open>n\<close> at \<open>p\<close> when the parent of \<open>p\<close> is a directory:
  a new entry, or in place of a regular file when \<open>n\<close> is one.
\<close>

definition create :: "files \<Rightarrow> string \<Rightarrow> node \<Rightarrow> error option \<times> files" where
  "create fs p n =
     (if p = [] then (Some (PathError ENOENT), fs)
      else if absolute p = [] then (Some (PathError (case n of Regular d \<Rightarrow> EISDIR | _ \<Rightarrow> EEXIST)), fs)
      else
        (case lookup_from fs ''/'' (butlast (absolute p)) of
           Inl e \<Rightarrow> (Some (PathError e), fs)
         | Inr Directory \<Rightarrow>
             (case (node_at fs (path_of (absolute p)), n) of
                (None, _) \<Rightarrow> (None, fs @ [(path_of (absolute p), n)])
              | (Some (Regular d0), Regular d) \<Rightarrow>
                  (None, map (\<lambda>(k, v). if k = path_of (absolute p) then (k, n) else (k, v)) fs)
              | (Some Directory, Regular d) \<Rightarrow> (Some (PathError EISDIR), fs)
              | (Some (Link t), Regular d) \<Rightarrow> (Some (PathError EIO), fs)
              | (Some _, _) \<Rightarrow> (Some (PathError EEXIST), fs))
         | Inr _ \<Rightarrow> (Some (PathError ENOTDIR), fs)))"

definition fs_Symlink :: "files \<Rightarrow> string \<Rightarrow> string \<Rightarrow> error option \<times> files" where
  "fs_Symlink fs oldname newname = create fs newname (Link oldname)"

definition fs_WriteFile :: "files \<Rightarrow> string \<Rightarrow> string \<Rightarrow> FileMode \<Rightarrow> error option \<times> files" where
  "fs_WriteFile fs p data perm = create fs p (Regular data)"

definition fs_RemoveAll :: "files \<Rightarrow> string \<Rightarrow> error option \<times> files" where
  "fs_RemoveAll fs p =
     (if p = [] then (None, fs)
      else (None, filter (\<lambda>(k, v). \<not> (k = path_of (absolute p) \<or>
                                        strings_HasPrefix k (child (path_of (absolute p)) [])))
                         fs))"

definition fs_ReadFile :: "files \<Rightarrow> string \<Rightarrow> error + string" where
  "fs_ReadFile fs p =
     (case resolve fs p of
        Inl e \<Rightarrow> Inl (PathError e)
      | Inr Directory \<Rightarrow> Inl (PathError EISDIR)
      | Inr (Regular d) \<Rightarrow> Inr d
      | Inr (Link t) \<Rightarrow> Inl (PathError EIO))"

definition unix :: "files os" where
  "unix = \<lparr>os_Stat = fs_Stat, os_MkdirAll = fs_MkdirAll, os_Symlink = fs_Symlink,
            os_RemoveAll = fs_RemoveAll, ioutil_ReadFile = fs_ReadFile,
            ioutil_WriteFile = fs_WriteFile\<rparr>"

text \<open>
  A codec in the layout \<^verbatim>\<open>encoding/json\<close> gives the two records, for index files
  without entries and for strings that need no escaping.
\<close>

definition quoted :: "string \<Rightarrow> string" where
  "quoted x = [CHR 0x22] @ x @ [CHR 0x22]"

definition index_prefix :: string where
  "index_prefix = ''{'' @ quoted ''name'' @ '':'' @ [CHR 0x22]"

definition index_suffix :: string where
  "index_suffix = [CHR 0x22] @ '','' @ quoted ''index'' @ '':[]}''"

definition json_plain :: json where
  "json_plain =
     \<lparr>Marshal_Context = (\<lambda>c. Inr (''{'' @ quoted ''client_id'' @ '':'' @ quoted (ClientId c) @ '','' @
                                     quoted ''client_secret'' @ '':'' @ quoted (ClientSecret c) @ '','' @
                                     quoted ''refresh_token'' @ '':'' @ quoted (RefreshToken c) @ ''}'')),
      Marshal_IndexFile = (\<lambda>index. if Index index = []
                                     then Inr (index_prefix @ IndexFile.Name index @ index_suffix)
                                     else Inl (ErrorString ''json: unsupported value'')),
      Unmarshal_IndexFile = (\<lambda>data v.
         if length index_prefix + length index_suffix \<le> length data \<and>
            take (length index_prefix) data = index_prefix \<and>
            drop (length data - length index_suffix) data = index_suffix
         then (v\<lparr>IndexFile.Name := take (length data - length index_prefix - length index_suffix)
                                        (drop (length index_prefix) data),
                  Index := []\<rparr>, None)
         else (v, Some (ErrorString ''json: cannot unmarshal'')))\<rparr>"

section \<open>Notions used to state the properties\<close>

text \<open>
  The source tests existence of a path by \<^verbatim>\<open>os.Stat\<close> returning a \<^verbatim>\<open>FileInfo\<close>;
  the parent of a path is what the loop of \<^verbatim>\<open>LeastNonExistantRoot\<close> moves to; the
  ancestors of a path are the non-empty paths that loop can visit, in the order of the
  visits (each parent is shorter than its path, so the length of the path bounds their
  number).
\<close>

definition Exists :: "'s os \<Rightarrow> 's \<Rightarrow> string \<Rightarrow> bool" where
  "Exists sys s p = (case os_Stat sys s p of Inl e \<Rightarrow> False | Inr fInfo \<Rightarrow> True)"

definition parentOf :: "string \<Rightarrow> string" where
  "parentOf p = fst (filepath_Split (strings_TrimRight p PathSeparator))"

primrec ancestors_upto :: "nat \<Rightarrow> string \<Rightarrow> string list" where
  "ancestors_upto 0 p = []"
| "ancestors_upto (Suc n) p = (if p = [] then [] else p # ancestors_upto n (parentOf p))"

definition ancestors :: "string \<Rightarrow> string list" where
  "ancestors p = ancestors_upto (length p) p"

text \<open>
  \<open>rootReady\<close> is the state in which the loop of \<^verbatim>\<open>MountPoints\<close> starts, and \<open>None\<close>
  when the call returns before the loop. \<open>produced\<close> is the list \<^verbatim>\<open>mtPoints\<close> at the
  end of the call: the mount points the call produced, in order.
\<close>

definition rootReady :: "'s os \<Rightarrow> string \<Rightarrow> 's \<Rightarrow> 's option" where
  "rootReady sys contextAbsPath s =
     (case os_Stat sys s contextAbsPath of
        Inr info \<Rightarrow> Some s
      | Inl fErr \<Rightarrow>
          if \<not> os_IsNotExist fErr then None
          else (case os_MkdirAll sys s contextAbsPath (os_ModeDir OR 493) of
                  (Some mkErr, s') \<Rightarrow> None
                | (None, s') \<Rightarrow> Some s'))"

definition produced ::
  "'s os \<Rightarrow> string \<Rightarrow> string \<Rightarrow> string list \<Rightarrow> bool \<Rightarrow> 's \<Rightarrow> MountPoint list" where
  "produced sys contextPath contextAbsPath paths hidden s =
     (case rootReady sys contextAbsPath s of
        None \<Rightarrow> []
      | Some s0 \<Rightarrow> fst (linkPaths sys contextPath contextAbsPath hidden paths Map.empty [] s0))"

text \<open>
  The mount point that \<^verbatim>\<open>MountPoints\<close> builds for a path whose link was created
  (\<open>err = None\<close>) or collided.
\<close>

definition pointFor :: "string \<Rightarrow> string \<Rightarrow> string \<Rightarrow> error option \<Rightarrow> MountPoint" where
  "pointFor contextPath contextAbsPath path err =
     \<lparr>CanClean = (err = None),
      Name = (if contextPath = [] then strings_Join [[], filepath_Base path] ''/''
              else strings_Join [[], contextPath, filepath_Base path] ''/''),
      AbsPath = path,
      MountPath = filepath_Join [contextAbsPath, filepath_Base path]\<rparr>"

text \<open>
  A path is rooted when it starts with a separator. An element of a path is plain when
  it is none of the elements \<^verbatim>\<open>path.Clean\<close> removes.
\<close>

definition rooted :: "string \<Rightarrow> bool" where
  "rooted p = (p \<noteq> [] \<and> IsPathSeparator (hd p))"





section \<open>States of the reference file system\<close>

text \<open>A mount root \<^verbatim>\<open>/m\<close> that already holds a regular file named \<^verbatim>\<open>docs\<close>.\<close>

definition fs_collide :: files where
  "fs_collide = [(''/home'', Directory), (''/home/docs'', Directory), (''/m'', Directory), (''/m/docs'', Regular ''x'')]"

text \<open>A home directory with a visible and a hidden entry; nothing else exists.\<close>

definition fs_home :: files where
  "fs_home = [(''/home'', Directory), (''/home/u'', Directory), (''/home/u/docs'', Directory),
              (''/home/u/.secret'', Regular ''x'')]"

text \<open>A regular file where a directory is expected.\<close>

definition fs_file :: files where
  "fs_file = [(''/f'', Regular ''x'')]"




section \<open>The loop over the source paths\<close>

lemma linkPath_accept:
  assumes "os_Stat sys s path = Inr info"
    and "hidden \<or> \<not> strings_HasPrefix (filepath_Base path) ''.''"
    and "os_Symlink sys s path (filepath_Join [contextAbsPath, filepath_Base path]) = (err, s')"
    and "err = None \<or> os_IsExist (the err)"
  shows "linkPath sys contextPath contextAbsPath hidden path s =
           (Some (pointFor contextPath contextAbsPath path err), s')"
  using assms by (auto simp: linkPath_def pointFor_def Let_def)

lemma linkPath_Some:
  assumes "linkPath sys contextPath contextAbsPath hidden path s = (Some mpt, s')"
  shows "AbsPath mpt = path \<and> (hidden \<or> \<not> strings_HasPrefix (filepath_Base path) ''.'')"
  using assms
  by (auto simp: linkPath_def Let_def split: sum.splits if_splits prod.splits)

lemma linkPaths_seen:
  "vis path \<noteq> None \<Longrightarrow>
   linkPaths sys cp ab h (path # paths) vis pts s = linkPaths sys cp ab h paths vis pts s"
  by simp

lemma linkPaths_new:
  "vis path = None \<Longrightarrow> linkPath sys cp ab h path s = (r, s') \<Longrightarrow>
   linkPaths sys cp ab h (path # paths) vis pts s =
     linkPaths sys cp ab h paths (vis(path \<mapsto> True))
       (case r of None \<Rightarrow> pts | Some mpt \<Rightarrow> pts @ [mpt]) s'"
  by (cases r) simp_all

lemma linkPaths_acc:
  "linkPaths sys cp ab h paths vis pts s =
     (pts @ fst (linkPaths sys cp ab h paths vis [] s), snd (linkPaths sys cp ab h paths vis [] s))"
proof (induction paths arbitrary: vis pts s)
  case Nil
  show ?case by simp
next
  case (Cons path paths)
  show ?case
  proof (cases "vis path = None")
    case False
    show ?thesis
      unfolding linkPaths_seen [where vis = vis and path = path, OF False]
      by (rule Cons.IH)
  next
    case True
    obtain r s' where step: "linkPath sys cp ab h path s = (r, s')"
      by (cases "linkPath sys cp ab h path s")
    let ?v = "vis(path \<mapsto> True)"
    have a: "linkPaths sys cp ab h paths ?v q s' =
          (q @ fst (linkPaths sys cp ab h paths ?v [] s'), snd (linkPaths sys cp ab h paths ?v [] s'))"
      for q by (rule Cons.IH)
    show ?thesis
    proof (cases r)
      case None
      show ?thesis
        unfolding linkPaths_new [where vis = vis and path = path, OF True step] None option.case
        by (rule a)
    next
      case (Some mpt)
      show ?thesis
        unfolding linkPaths_new [where vis = vis and path = path, OF True step] Some option.case
        by (subst a, subst (2 3) a) simp
    qed
  qed
qed

lemma linkPaths_dom:
  assumes "\<And>p. (vis p = None) = (vis' p = None)"
  shows "linkPaths sys cp ab h paths vis pts s = linkPaths sys cp ab h paths vis' pts s"
  using assms
proof (induction paths arbitrary: vis vis' pts s)
  case Nil
  show ?case by simp
next
  case (Cons path paths)
  have same: "(vis path = None) = (vis' path = None)"
    by (rule Cons.prems)
  have upd: "((vis(path \<mapsto> True)) p = None) = ((vis'(path \<mapsto> True)) p = None)" for p
    using Cons.prems by simp
  show ?case
  proof (cases "vis path = None")
    case True
    with same have True': "vis' path = None" by simp
    obtain r s' where step: "linkPath sys cp ab h path s = (r, s')"
      by (cases "linkPath sys cp ab h path s")
    show ?thesis
      unfolding linkPaths_new [where vis = vis and path = path, OF True step] linkPaths_new [where vis = vis' and path = path, OF True' step]
      by (rule Cons.IH) (rule upd)
  next
    case False
    with same have False': "vis' path \<noteq> None" by simp
    show ?thesis
      unfolding linkPaths_seen [where vis = vis and path = path, OF False] linkPaths_seen [where vis = vis' and path = path, OF False']
      by (rule Cons.IH) (rule Cons.prems)
  qed
qed

lemma linkPaths_append:
  "linkPaths sys cp ab h (pre @ rest) vis pts s =
     linkPaths sys cp ab h rest (\<lambda>p. if p \<in> set pre then Some True else vis p)
       (fst (linkPaths sys cp ab h pre vis pts s)) (snd (linkPaths sys cp ab h pre vis pts s))"
proof (induction pre arbitrary: vis pts s)
  case Nil
  show ?case by simp
next
  case (Cons path pre)
  show ?case
  proof (cases "vis path = None")
    case False
    have d: "linkPaths sys cp ab h rest (\<lambda>p. if p \<in> set pre then Some True else vis p) a b =
          linkPaths sys cp ab h rest (\<lambda>p. if p \<in> set (path # pre) then Some True else vis p) a b"
      for a b
      by (rule linkPaths_dom) (use False in auto)
    show ?thesis
      unfolding append_Cons linkPaths_seen [where vis = vis and path = path, OF False] d [symmetric]
      by (rule Cons.IH)
  next
    case True
    have eq: "(\<lambda>p. if p \<in> set (path # pre) then Some True else vis p) =
              (\<lambda>p. if p \<in> set pre then Some True else (vis(path \<mapsto> True)) p)"
      by (rule ext) simp
    obtain r s' where step: "linkPath sys cp ab h path s = (r, s')"
      by (cases "linkPath sys cp ab h path s")
    show ?thesis
      unfolding append_Cons linkPaths_new [where vis = vis and path = path, OF True step] eq
      by (rule Cons.IH)
  qed
qed

section \<open>The mount returned by a call\<close>

lemma length_ge_1: "(Suc 0 \<le> length xs) = (xs \<noteq> [])"
  by (cases xs) simp_all

lemma mountAll_mount:
  "fst (fst (mountAll sys cp ab paths h created root sources s)) =
     (let pts = fst (linkPaths sys cp ab h paths Map.empty [] s)
      in if pts = [] then None
         else Some \<lparr>CreatedMountDir = (if created then ab else []),
                    ShortestMountRoot = (if created then root else []), Points = pts\<rparr>)"
  by (simp add: mountAll_def Let_def length_ge_1 split: prod.splits)

lemma MountPoints_mount:
  "fst (fst (MountPoints sys cp ab paths h s)) =
     (if produced sys cp ab paths h s = [] then None
      else Some \<lparr>CreatedMountDir = (if Exists sys s ab then [] else ab),
                 ShortestMountRoot = (if Exists sys s ab then [] else LeastNonExistantRoot sys s ab),
                 Points = produced sys cp ab paths h s\<rparr>)"
proof (cases "os_Stat sys s ab")
  case (Inr info)
  then show ?thesis
    by (simp add: MountPoints_def produced_def rootReady_def Exists_def mountAll_mount Let_def)
next
  case (Inl fErr)
  obtain mkErr s' where mk: "os_MkdirAll sys s ab (os_ModeDir OR 493) = (mkErr, s')"
    by (cases "os_MkdirAll sys s ab (os_ModeDir OR 493)")
  show ?thesis
  proof (cases "os_IsNotExist fErr \<and> mkErr = None")
    case True
    with Inl mk show ?thesis
      by (simp add: MountPoints_def produced_def rootReady_def Exists_def mountAll_mount Let_def)
  next
    case False
    with Inl mk show ?thesis
      by (cases mkErr) (auto simp: MountPoints_def produced_def rootReady_def Exists_def Let_def)
  qed
qed

lemma accepted_path_produced:
  assumes ready: "rootReady sys ab s = Some s0"
    and paths: "paths = pre @ path # post"
    and first: "path \<notin> set pre"
    and before: "s1 = snd (linkPaths sys cp ab h pre Map.empty [] s0)"
    and stat: "os_Stat sys s1 path = Inr info"
    and shown: "h \<or> \<not> strings_HasPrefix (filepath_Base path) ''.''"
    and link: "os_Symlink sys s1 path (filepath_Join [ab, filepath_Base path]) = (err, s2)"
    and ok: "err = None \<or> os_IsExist (the err)"
  shows "pointFor cp ab path err \<in> set (produced sys cp ab paths h s)"
proof -
  let ?vis = "\<lambda>p. if p \<in> set pre then Some True else Map.empty p"
  let ?pts = "fst (linkPaths sys cp ab h pre Map.empty [] s0)"
  have new: "?vis path = None"
    using first by simp
  have step: "linkPath sys cp ab h path s1 = (Some (pointFor cp ab path err), s2)"
    by (rule linkPath_accept [OF stat shown link ok])
  have "linkPaths sys cp ab h paths Map.empty [] s0 =
        linkPaths sys cp ab h (path # post) ?vis ?pts s1"
    unfolding paths before by (rule linkPaths_append)
  also have "\<dots> = linkPaths sys cp ab h post (?vis(path \<mapsto> True)) (?pts @ [pointFor cp ab path err]) s2"
    by (simp only: linkPaths_new [where vis = ?vis and path = path, OF new step] option.case)
  finally have "fst (linkPaths sys cp ab h paths Map.empty [] s0) =
      (?pts @ [pointFor cp ab path err]) @
        fst (linkPaths sys cp ab h post (?vis(path \<mapsto> True)) [] s2)"
    by (subst (asm) linkPaths_acc) simp
  then show ?thesis
    by (simp add: produced_def ready)
qed

text \<open>
  C1. When the link for a source path cannot be created because an entry already exists at
  the link path (the path being the first occurrence of its string, present, and not
  filtered as hidden), the call still returns a mount point for that source, with
  \<open>CanClean = False\<close>; \<^verbatim>\<open>Unmount\<close> on that mount point returns no error and leaves
  every state of the file system as it is, so the entry at the link path is untouched.
\<close>

theorem collision_keeps_point_not_cleanable:
  assumes "rootReady sys contextAbsPath s = Some s0"
    and "paths = pre @ path # post"
    and "path \<notin> set pre"
    and "s1 = snd (linkPaths sys contextPath contextAbsPath hidden pre Map.empty [] s0)"
    and "os_Stat sys s1 path = Inr info"
    and "hidden \<or> \<not> strings_HasPrefix (filepath_Base path) ''.''"
    and "os_Symlink sys s1 path (filepath_Join [contextAbsPath, filepath_Base path]) = (Some e, s2)"
    and "os_IsExist e"
  shows "\<exists>m mpt. fst (fst (MountPoints sys contextPath contextAbsPath paths hidden s)) = Some m \<and>
           mpt \<in> set (Points m) \<and> AbsPath mpt = path \<and>
           MountPath mpt = filepath_Join [contextAbsPath, filepath_Base path] \<and>
           \<not> CanClean mpt \<and> (\<forall>t. Unmount sys mpt t = (None, t))"
proof -
  let ?mpt = "pointFor contextPath contextAbsPath path (Some e)"
  have mem: "?mpt \<in> set (produced sys contextPath contextAbsPath paths hidden s)"
    using assms by (intro accepted_path_produced [where pre = pre and post = post]) simp_all
  then have "produced sys contextPath contextAbsPath paths hidden s \<noteq> []"
    by auto
  then obtain m where m: "fst (fst (MountPoints sys contextPath contextAbsPath paths hidden s)) = Some m"
    and pts: "Points m = produced sys contextPath contextAbsPath paths hidden s"
    by (simp add: MountPoints_mount)
  have "AbsPath ?mpt = path" "MountPath ?mpt = filepath_Join [contextAbsPath, filepath_Base path]"
    "\<not> CanClean ?mpt" "\<forall>t. Unmount sys ?mpt t = (None, t)"
    by (simp_all add: pointFor_def Unmount_def mounted_def)
  with m pts mem show ?thesis
    by metis
qed

theorem collision_keeps_point_not_cleanable_witness:
  "\<exists>m mpt. fst (fst (MountPoints unix [] ''/m'' [''/home/docs''] False fs_collide)) = Some m \<and>
           mpt \<in> set (Points m) \<and> AbsPath mpt = ''/home/docs'' \<and>
           MountPath mpt = ''/m/docs'' \<and>
           \<not> CanClean mpt \<and> (\<forall>t. Unmount unix mpt t = (None, t))"
proof -
  have 1: "rootReady unix ''/m'' fs_collide = Some fs_collide" by code_simp
  have 2: "[''/home/docs''] = [] @ ''/home/docs'' # []" by simp
  have 3: "''/home/docs'' \<notin> set []" by simp
  have 4: "fs_collide = snd (linkPaths unix [] ''/m'' False [] Map.empty [] fs_collide)" by simp
  have 5: "os_Stat unix fs_collide ''/home/docs'' = Inr (FileInfo True)" by code_simp
  have 6: "False \<or> \<not> strings_HasPrefix (filepath_Base ''/home/docs'') ''.''" by code_simp
  have 7: "os_Symlink unix fs_collide ''/home/docs'' (filepath_Join [''/m'', filepath_Base ''/home/docs'']) = (Some (PathError EEXIST), fs_collide)" by code_simp
  have 8: "os_IsExist (PathError EEXIST)" by simp
  have 9: "filepath_Join [''/m'', filepath_Base ''/home/docs''] = ''/m/docs''" by code_simp
  show ?thesis
    using collision_keeps_point_not_cleanable [OF 1 2 3 4 5 6 7 8] unfolding 9 .
qed

section \<open>The highest non-existent ancestor\<close>

lemma loop_empty_path:
  "LeastNonExistantRoot_loop sys s last_seen [] = last_seen"
  by (subst LeastNonExistantRoot_loop.simps) simp

lemma loop_existing:
  "os_Stat sys s p = Inr fInfo \<Longrightarrow> LeastNonExistantRoot_loop sys s last_seen p = last_seen"
  by (subst LeastNonExistantRoot_loop.simps) simp

lemma loop_missing:
  "p \<noteq> [] \<Longrightarrow> os_Stat sys s p = Inl e \<Longrightarrow>
   LeastNonExistantRoot_loop sys s last_seen p = LeastNonExistantRoot_loop sys s p (parentOf p)"
  by (subst LeastNonExistantRoot_loop.simps) (simp add: parentOf_def)

lemma loop_keeps_nonempty:
  "last_seen \<noteq> [] \<Longrightarrow> LeastNonExistantRoot_loop sys s last_seen p \<noteq> []"
proof (induction sys s last_seen p rule: LeastNonExistantRoot_loop.induct)
  case (1 sys s last_seen p)
  show ?case
  proof (cases "p = []")
    case True
    with "1.prems" show ?thesis by (simp add: loop_empty_path)
  next
    case False
    show ?thesis
    proof (cases "os_Stat sys s p")
      case (Inr fInfo)
      with "1.prems" show ?thesis by (simp add: loop_existing)
    next
      case (Inl e)
      have "LeastNonExistantRoot_loop sys s p (parentOf p) \<noteq> []"
        unfolding parentOf_def by (rule "1.IH" [OF False Inl False])
      then show ?thesis
        by (simp add: loop_missing [OF False Inl])
    qed
  qed
qed

lemma LeastNonExistantRoot_empty_iff:
  assumes "\<not> Exists sys s p"
  shows "(LeastNonExistantRoot sys s p = []) = (p = [])"
proof (cases "p = []")
  case True
  then show ?thesis by (simp add: LeastNonExistantRoot_def loop_empty_path)
next
  case False
  from assms obtain e where "os_Stat sys s p = Inl e"
    by (cases "os_Stat sys s p") (simp_all add: Exists_def)
  with False show ?thesis
    by (simp add: LeastNonExistantRoot_def loop_missing loop_keeps_nonempty)
qed

section \<open>The results of a call\<close>

lemma MountPoints_sources:
  "snd (fst (MountPoints sys cp ab paths h s)) =
     (case os_Stat sys s ab of
        Inr info \<Rightarrow> []
      | Inl e \<Rightarrow> if os_IsNotExist e \<and> LeastNonExistantRoot sys s ab \<noteq> []
                 then [LeastNonExistantRoot sys s ab] else [])"
  by (simp add: MountPoints_def mountAll_def Let_def split: sum.splits prod.splits option.splits)

lemma MountPoints_state:
  "snd (MountPoints sys cp ab paths h s) =
     (case os_Stat sys s ab of
        Inr info \<Rightarrow> snd (linkPaths sys cp ab h paths Map.empty [] s)
      | Inl e \<Rightarrow>
          if \<not> os_IsNotExist e then s
          else (case os_MkdirAll sys s ab (os_ModeDir OR 493) of
                  (Some mkErr, s') \<Rightarrow> s'
                | (None, s') \<Rightarrow> snd (linkPaths sys cp ab h paths Map.empty [] s')))"
  by (simp add: MountPoints_def mountAll_def Let_def split: sum.splits prod.splits option.splits)

text \<open>
  C2. A call that produced no mount point returns no \<^verbatim>\<open>Mount\<close>, whether or not it created
  the mount root; a call that produced at least one returns a \<^verbatim>\<open>Mount\<close> whose points are
  all the produced mount points, in the order in which they were produced.
\<close>
theorem mount_nil_iff_nothing_produced:
  "(produced sys contextPath contextAbsPath paths hidden s = [] \<longrightarrow>
      fst (fst (MountPoints sys contextPath contextAbsPath paths hidden s)) = None) \<and>
   (produced sys contextPath contextAbsPath paths hidden s \<noteq> [] \<longrightarrow>
      (\<exists>m. fst (fst (MountPoints sys contextPath contextAbsPath paths hidden s)) = Some m \<and>
           Points m = produced sys contextPath contextAbsPath paths hidden s))"
  by (simp add: MountPoints_mount)

theorem mount_nil_iff_nothing_produced_witness:
  "Exists unix (snd (MountPoints unix [] ''/m'' [''/nope''] False [])) ''/m'' \<and>
   \<not> Exists unix [] ''/m'' \<and>
   fst (fst (MountPoints unix [] ''/m'' [''/nope''] False [])) = None \<and>
   (\<exists>m. fst (fst (MountPoints unix [] ''/work/.gd/mnt''
                      [''/home/u/docs'', ''/home/u/.secret'', ''/home/u/docs''] False fs_home)) = Some m \<and>
        Points m = [\<lparr>CanClean = True, Name = ''/docs'', AbsPath = ''/home/u/docs'',
                     MountPath = ''/work/.gd/mnt/docs''\<rparr>])"
proof -
  have 1: "produced unix [] ''/m'' [''/nope''] False [] = []"
    by code_simp
  have 2: "produced unix [] ''/work/.gd/mnt''
             [''/home/u/docs'', ''/home/u/.secret'', ''/home/u/docs''] False fs_home =
           [\<lparr>CanClean = True, Name = ''/docs'', AbsPath = ''/home/u/docs'',
              MountPath = ''/work/.gd/mnt/docs''\<rparr>]"
    by code_simp
  have 3: "Exists unix (snd (MountPoints unix [] ''/m'' [''/nope''] False [])) ''/m''"
    by code_simp
  have 4: "\<not> Exists unix [] ''/m''"
    by code_simp
  show ?thesis
    using mount_nil_iff_nothing_produced [of unix "[]" "''/m''" "[''/nope'']" False "[]"]
      mount_nil_iff_nothing_produced [of unix "[]" "''/work/.gd/mnt''"
        "[''/home/u/docs'', ''/home/u/.secret'', ''/home/u/docs'']" False fs_home]
    unfolding 1 2 using 3 4 by simp
qed

text \<open>
  C6. In every \<^verbatim>\<open>Mount\<close> that a call returns: if the mount root existed before the call,
  \<open>CreatedMountDir\<close> and \<open>ShortestMountRoot\<close> are both empty; if the call created it, they
  are the mount root and its highest non-existent ancestor; and one of them is empty exactly
  when the other is.
\<close>
theorem root_fields_populated_together:
  assumes "fst (fst (MountPoints sys contextPath contextAbsPath paths hidden s)) = Some m"
  shows "(Exists sys s contextAbsPath \<longrightarrow> CreatedMountDir m = [] \<and> ShortestMountRoot m = []) \<and>
         (\<not> Exists sys s contextAbsPath \<longrightarrow>
            CreatedMountDir m = contextAbsPath \<and>
            ShortestMountRoot m = LeastNonExistantRoot sys s contextAbsPath) \<and>
         ((CreatedMountDir m = []) = (ShortestMountRoot m = []))"
proof -
  have m: "m = \<lparr>CreatedMountDir = (if Exists sys s contextAbsPath then [] else contextAbsPath),
                 ShortestMountRoot = (if Exists sys s contextAbsPath then []
                                      else LeastNonExistantRoot sys s contextAbsPath),
                 Points = produced sys contextPath contextAbsPath paths hidden s\<rparr>"
    using assms by (simp add: MountPoints_mount split: if_splits)
  show ?thesis
    by (subst (1 2 3 4 5 6) m) (simp add: LeastNonExistantRoot_empty_iff)
qed


theorem root_fields_populated_together_witness:
  "(\<not> Exists unix fs_home ''/work/.gd/mnt'' \<and>
    CreatedMountDir \<lparr>CreatedMountDir = ''/work/.gd/mnt'', ShortestMountRoot = ''/work/'',
       Points = [\<lparr>CanClean = True, Name = ''/docs'', AbsPath = ''/home/u/docs'',
                   MountPath = ''/work/.gd/mnt/docs''\<rparr>]\<rparr> = ''/work/.gd/mnt'' \<and>
    LeastNonExistantRoot unix fs_home ''/work/.gd/mnt'' = ''/work/'') \<and>
   (Exists unix fs_collide ''/m'' \<and>
    (\<exists>m. fst (fst (MountPoints unix [] ''/m'' [''/home/docs''] False fs_collide)) = Some m \<and>
         CreatedMountDir m = [] \<and> ShortestMountRoot m = []))"
proof -
  have 1: "fst (fst (MountPoints unix [] ''/work/.gd/mnt'' [''/home/u/docs''] False fs_home)) =
           Some \<lparr>CreatedMountDir = ''/work/.gd/mnt'', ShortestMountRoot = ''/work/'',
                  Points = [\<lparr>CanClean = True, Name = ''/docs'', AbsPath = ''/home/u/docs'',
                              MountPath = ''/work/.gd/mnt/docs''\<rparr>]\<rparr>"
    by code_simp
  have 2: "\<not> Exists unix fs_home ''/work/.gd/mnt''"
    by code_simp
  have 3: "fst (fst (MountPoints unix [] ''/m'' [''/home/docs''] False fs_collide)) =
           Some \<lparr>CreatedMountDir = [], ShortestMountRoot = [],
                  Points = [\<lparr>CanClean = False, Name = ''/docs'', AbsPath = ''/home/docs'',
                              MountPath = ''/m/docs''\<rparr>]\<rparr>"
    by code_simp
  have 4: "Exists unix fs_collide ''/m''"
    by code_simp
  show ?thesis
    using root_fields_populated_together [OF 1] root_fields_populated_together [OF 3] 2 3 4
    by simp
qed

text \<open>
  C3. When \<^verbatim>\<open>os.Stat\<close> of the mount root fails with an error other than non-existence,
  the call returns no \<^verbatim>\<open>Mount\<close> and no sources, produces no mount point and leaves the
  file system as it was. When the error is non-existence, the highest non-existent
  ancestor is what the call reports (in the sources when it is non-empty, and as the
  shortest mount root of the \<^verbatim>\<open>Mount\<close>), and the file system is the one \<^verbatim>\<open>os.MkdirAll\<close>
  of the mount root leaves, followed by the links when the directories were created. When
  the root exists, nothing of that happens: no sources, no root fields, links only.
\<close>
theorem stat_failure_is_terminal:
  "(\<forall>e. os_Stat sys s contextAbsPath = Inl e \<and> \<not> os_IsNotExist e \<longrightarrow>
        MountPoints sys contextPath contextAbsPath paths hidden s = ((None, []), s) \<and>
        produced sys contextPath contextAbsPath paths hidden s = []) \<and>
   (\<forall>e. os_Stat sys s contextAbsPath = Inl e \<and> os_IsNotExist e \<longrightarrow>
        snd (fst (MountPoints sys contextPath contextAbsPath paths hidden s)) =
          (if LeastNonExistantRoot sys s contextAbsPath \<noteq> []
           then [LeastNonExistantRoot sys s contextAbsPath] else []) \<and>
        snd (MountPoints sys contextPath contextAbsPath paths hidden s) =
          (case os_MkdirAll sys s contextAbsPath (os_ModeDir OR 493) of
             (Some mkErr, s') \<Rightarrow> s'
           | (None, s') \<Rightarrow> snd (linkPaths sys contextPath contextAbsPath hidden paths Map.empty [] s')) \<and>
        (\<forall>m. fst (fst (MountPoints sys contextPath contextAbsPath paths hidden s)) = Some m \<longrightarrow>
             CreatedMountDir m = contextAbsPath \<and>
             ShortestMountRoot m = LeastNonExistantRoot sys s contextAbsPath)) \<and>
   (\<forall>info. os_Stat sys s contextAbsPath = Inr info \<longrightarrow>
        snd (fst (MountPoints sys contextPath contextAbsPath paths hidden s)) = [] \<and>
        snd (MountPoints sys contextPath contextAbsPath paths hidden s) =
          snd (linkPaths sys contextPath contextAbsPath hidden paths Map.empty [] s) \<and>
        (\<forall>m. fst (fst (MountPoints sys contextPath contextAbsPath paths hidden s)) = Some m \<longrightarrow>
             CreatedMountDir m = [] \<and> ShortestMountRoot m = []))"
proof (intro conjI allI impI)
  fix e
  assume "os_Stat sys s contextAbsPath = Inl e \<and> \<not> os_IsNotExist e"
  then show "MountPoints sys contextPath contextAbsPath paths hidden s = ((None, []), s)"
    and "produced sys contextPath contextAbsPath paths hidden s = []"
    by (simp_all add: MountPoints_def produced_def rootReady_def)
next
  fix e
  assume a: "os_Stat sys s contextAbsPath = Inl e \<and> os_IsNotExist e"
  then show "snd (fst (MountPoints sys contextPath contextAbsPath paths hidden s)) =
          (if LeastNonExistantRoot sys s contextAbsPath \<noteq> []
           then [LeastNonExistantRoot sys s contextAbsPath] else [])"
    by (simp add: MountPoints_sources)
  from a show "snd (MountPoints sys contextPath contextAbsPath paths hidden s) =
          (case os_MkdirAll sys s contextAbsPath (os_ModeDir OR 493) of
             (Some mkErr, s') \<Rightarrow> s'
           | (None, s') \<Rightarrow> snd (linkPaths sys contextPath contextAbsPath hidden paths Map.empty [] s'))"
    by (simp add: MountPoints_state)
  fix m
  assume "fst (fst (MountPoints sys contextPath contextAbsPath paths hidden s)) = Some m"
  with a show "CreatedMountDir m = contextAbsPath"
    and "ShortestMountRoot m = LeastNonExistantRoot sys s contextAbsPath"
    by (auto simp: MountPoints_mount Exists_def split: if_splits)
next
  fix info
  assume a: "os_Stat sys s contextAbsPath = Inr info"
  then show "snd (fst (MountPoints sys contextPath contextAbsPath paths hidden s)) = []"
    by (simp add: MountPoints_sources)
  from a show "snd (MountPoints sys contextPath contextAbsPath paths hidden s) =
          snd (linkPaths sys contextPath contextAbsPath hidden paths Map.empty [] s)"
    by (simp add: MountPoints_state)
  fix m
  assume "fst (fst (MountPoints sys contextPath contextAbsPath paths hidden s)) = Some m"
  with a show "CreatedMountDir m = []" and "ShortestMountRoot m = []"
    by (auto simp: MountPoints_mount Exists_def split: if_splits)
qed

theorem stat_failure_is_terminal_witness:
  "(os_Stat unix fs_file ''/f/m'' = Inl (PathError ENOTDIR) \<and> \<not> os_IsNotExist (PathError ENOTDIR) \<and>
    MountPoints unix [] ''/f/m'' [''/f''] False fs_file = ((None, []), fs_file)) \<and>
   (os_Stat unix fs_home ''/work/.gd/mnt'' = Inl (PathError ENOENT) \<and> os_IsNotExist (PathError ENOENT) \<and>
    snd (fst (MountPoints unix [] ''/work/.gd/mnt'' [''/home/u/docs''] False fs_home)) = [''/work/''] \<and>
    Exists unix (snd (MountPoints unix [] ''/work/.gd/mnt'' [''/home/u/docs''] False fs_home))
      ''/work/.gd/mnt'') \<and>
   (os_Stat unix fs_collide ''/m'' = Inr (FileInfo True) \<and>
    snd (fst (MountPoints unix [] ''/m'' [''/home/docs''] False fs_collide)) = [])"
proof -
  have 1: "os_Stat unix fs_file ''/f/m'' = Inl (PathError ENOTDIR) \<and> \<not> os_IsNotExist (PathError ENOTDIR)"
    by code_simp
  have 2: "os_Stat unix fs_home ''/work/.gd/mnt'' = Inl (PathError ENOENT) \<and> os_IsNotExist (PathError ENOENT)"
    by code_simp
  have 3: "os_Stat unix fs_collide ''/m'' = Inr (FileInfo True)"
    by code_simp
  have 4: "LeastNonExistantRoot unix fs_home ''/work/.gd/mnt'' = ''/work/''"
    by code_simp
  have 5: "Exists unix (snd (MountPoints unix [] ''/work/.gd/mnt'' [''/home/u/docs''] False fs_home))
      ''/work/.gd/mnt''"
    by code_simp
  show ?thesis
    using stat_failure_is_terminal [of unix fs_file "''/f/m''" "[]" "[''/f'']" False]
      stat_failure_is_terminal [of unix fs_home "''/work/.gd/mnt''" "[]" "[''/home/u/docs'']" False]
      stat_failure_is_terminal [of unix fs_collide "''/m''" "[]" "[''/home/docs'']" False]
      1 2 3 4 5
    by simp
qed

text \<open>
  C9, as amended. The second result of a call is determined by the mount root alone and is
  never taken from the source paths, the context path or the hidden flag: it is empty
  unless \<^verbatim>\<open>os.Stat\<close> of the mount root failed with non-existence and the highest
  non-existent ancestor is non-empty, and then it holds exactly that ancestor.
\<close>
theorem sources_hold_only_the_shortest_root:
  "snd (fst (MountPoints sys contextPath contextAbsPath paths hidden s)) =
     (case os_Stat sys s contextAbsPath of
        Inr info \<Rightarrow> []
      | Inl e \<Rightarrow> if os_IsNotExist e \<and> LeastNonExistantRoot sys s contextAbsPath \<noteq> []
                 then [LeastNonExistantRoot sys s contextAbsPath] else []) \<and>
   snd (fst (MountPoints sys contextPath contextAbsPath paths hidden s)) =
     snd (fst (MountPoints sys contextPath' contextAbsPath paths' hidden' s))"
  by (simp add: MountPoints_sources)

theorem sources_hold_only_the_shortest_root_witness:
  "snd (fst (MountPoints unix [] ''/work/.gd/mnt'' [''/home/u/docs''] False fs_home)) = [''/work/''] \<and>
   snd (fst (MountPoints unix [] ''/work/.gd/mnt'' [''/home/u/docs''] False fs_home)) =
     snd (fst (MountPoints unix ''x'' ''/work/.gd/mnt'' [] True fs_home))"
proof -
  have 1: "os_Stat unix fs_home ''/work/.gd/mnt'' = Inl (PathError ENOENT)"
    by code_simp
  have 2: "LeastNonExistantRoot unix fs_home ''/work/.gd/mnt'' = ''/work/''"
    by code_simp
  note inst = sources_hold_only_the_shortest_root [of unix "[]" "''/work/.gd/mnt''"
      "[''/home/u/docs'']" False fs_home "''x''" "[]" True]
  have "snd (fst (MountPoints unix [] ''/work/.gd/mnt'' [''/home/u/docs''] False fs_home)) = [''/work/'']"
    using inst [THEN conjunct1] by (simp add: 1 2)
  then show ?thesis
    using inst [THEN conjunct2] by (intro conjI)
qed

text \<open>
  As stated, C9 also says that the second result never contains one of the caller's source
  paths. It does when the caller passes the string of the shortest mount root as a source
  path: here the mount root \<^verbatim>\<open>/m\<close> is missing and is also the only source path.
\<close>

theorem sources_may_contain_a_source_path:
  "''/m'' \<in> set [''/m''] \<and> ''/m'' \<in> set (snd (fst (MountPoints unix [] ''/m'' [''/m''] False [])))"
  by code_simp

section \<open>Repeated and hidden source paths\<close>

lemma linkPaths_distinct:
  assumes "distinct (map AbsPath pts)" and "\<forall>mpt\<in>set pts. vis (AbsPath mpt) \<noteq> None"
  shows "distinct (map AbsPath (fst (linkPaths sys cp ab h paths vis pts s)))"
  using assms
proof (induction paths arbitrary: vis pts s)
  case Nil
  then show ?case by simp
next
  case (Cons path paths)
  show ?case
  proof (cases "vis path = None")
    case False
    show ?thesis
      unfolding linkPaths_seen [where vis = vis and path = path, OF False]
      by (rule Cons.IH) (rule Cons.prems)+
  next
    case True
    obtain r s' where step: "linkPath sys cp ab h path s = (r, s')"
      by (cases "linkPath sys cp ab h path s")
    let ?pts = "case r of None \<Rightarrow> pts | Some mpt \<Rightarrow> pts @ [mpt]"
    have "path \<notin> AbsPath ` set pts"
      using True Cons.prems(2) by auto
    then have d: "distinct (map AbsPath ?pts)"
      using Cons.prems(1) step by (cases r) (auto dest: linkPath_Some)
    have v: "\<forall>mpt\<in>set ?pts. (vis(path \<mapsto> True)) (AbsPath mpt) \<noteq> None"
      using Cons.prems(2) step by (cases r) (auto dest: linkPath_Some)
    show ?thesis
      unfolding linkPaths_new [where vis = vis and path = path, OF True step]
      by (rule Cons.IH [OF d v])
  qed
qed

lemma linkPaths_shown:
  assumes "\<forall>mpt\<in>set pts. h \<or> \<not> strings_HasPrefix (filepath_Base (AbsPath mpt)) ''.''"
  shows "\<forall>mpt\<in>set (fst (linkPaths sys cp ab h paths vis pts s)).
           h \<or> \<not> strings_HasPrefix (filepath_Base (AbsPath mpt)) ''.''"
  using assms
proof (induction paths arbitrary: vis pts s)
  case Nil
  then show ?case by simp
next
  case (Cons path paths)
  show ?case
  proof (cases "vis path = None")
    case False
    show ?thesis
      unfolding linkPaths_seen [where vis = vis and path = path, OF False]
      by (rule Cons.IH) (rule Cons.prems)
  next
    case True
    obtain r s' where step: "linkPath sys cp ab h path s = (r, s')"
      by (cases "linkPath sys cp ab h path s")
    let ?pts = "case r of None \<Rightarrow> pts | Some mpt \<Rightarrow> pts @ [mpt]"
    have p: "\<forall>mpt\<in>set ?pts. h \<or> \<not> strings_HasPrefix (filepath_Base (AbsPath mpt)) ''.''"
      using Cons.prems step by (cases r) (auto dest: linkPath_Some)
    show ?thesis
      unfolding linkPaths_new [where vis = vis and path = path, OF True step]
      by (rule Cons.IH [OF p])
  qed
qed

lemma linkPaths_drop_repeated:
  assumes "path \<in> set pre"
  shows "linkPaths sys cp ab h (pre @ path # post) vis pts s =
         linkPaths sys cp ab h (pre @ post) vis pts s"
proof -
  let ?vis = "\<lambda>p. if p \<in> set pre then Some True else vis p"
  have seen: "?vis path \<noteq> None"
    using assms by simp
  show ?thesis
    unfolding linkPaths_append [where pre = pre]
      linkPaths_seen [where vis = ?vis and path = path, OF seen] ..
qed

lemma mountAll_drop_repeated:
  assumes "path \<in> set pre"
  shows "mountAll sys cp ab (pre @ path # post) h created root sources s =
         mountAll sys cp ab (pre @ post) h created root sources s"
  by (simp add: mountAll_def linkPaths_drop_repeated [OF assms])

lemma distinct_filter_le_1:
  "distinct (map f xs) \<Longrightarrow> length (filter (\<lambda>x. f x = a) xs) \<le> 1"
  by (induction xs) (auto simp: filter_empty_conv image_iff)

lemma produced_Points:
  "fst (fst (MountPoints sys cp ab paths h s)) = Some m \<Longrightarrow>
   Points m = produced sys cp ab paths h s"
  by (auto simp: MountPoints_mount split: if_splits)

lemma distinct_filter_eq_1:
  "distinct (map f xs) \<Longrightarrow> x \<in> set xs \<Longrightarrow> length (filter (\<lambda>y. f y = f x) xs) = 1"
proof (induction xs)
  case Nil
  then show ?case by simp
next
  case (Cons a xs)
  show ?case
  proof (cases "x = a")
    case True
    have "f a \<notin> f ` set xs"
      using Cons.prems(1) by simp
    then have "filter (\<lambda>y. f y = f a) xs = []"
      by (simp add: filter_empty_conv image_iff) metis
    with True show ?thesis by simp
  next
    case False
    with Cons.prems have "x \<in> set xs" and "f a \<noteq> f x"
      by auto
    with Cons show ?thesis by simp
  qed
qed

lemma produced_distinct:
  "distinct (map AbsPath (produced sys cp ab paths h s))"
  by (cases "rootReady sys ab s") (simp_all add: produced_def linkPaths_distinct)

text \<open>
  C7, as amended. No two mount points of a returned \<^verbatim>\<open>Mount\<close> have the same source path, so
  a source path has at most one mount point, however often it is passed. An occurrence of a
  path after its first one is skipped silently: the call returns what it returns without
  that occurrence, and leaves the same file system. A path has exactly one mount point
  when its first occurrence is not skipped for another reason: \<^verbatim>\<open>os.Stat\<close> finds it, it is
  not filtered as hidden, and its link is created or collides. The set of visited paths
  starts empty in every call.
\<close>

theorem repeated_paths_are_skipped:
  "(\<forall>m. fst (fst (MountPoints sys contextPath contextAbsPath paths hidden s)) = Some m \<longrightarrow>
        distinct (map AbsPath (Points m)) \<and>
        length (filter (\<lambda>mpt. AbsPath mpt = path) (Points m)) \<le> 1) \<and>
   (path \<in> set pre \<longrightarrow>
      MountPoints sys contextPath contextAbsPath (pre @ path # post) hidden s =
      MountPoints sys contextPath contextAbsPath (pre @ post) hidden s) \<and>
   (rootReady sys contextAbsPath s = Some s0 \<and> paths = pre @ path # post \<and> path \<notin> set pre \<and>
    s1 = snd (linkPaths sys contextPath contextAbsPath hidden pre Map.empty [] s0) \<and>
    os_Stat sys s1 path = Inr info \<and>
    (hidden \<or> \<not> strings_HasPrefix (filepath_Base path) ''.'') \<and>
    os_Symlink sys s1 path (filepath_Join [contextAbsPath, filepath_Base path]) = (err, s2) \<and>
    (err = None \<or> os_IsExist (the err)) \<longrightarrow>
      (\<exists>m. fst (fst (MountPoints sys contextPath contextAbsPath paths hidden s)) = Some m \<and>
           length (filter (\<lambda>mpt. AbsPath mpt = path) (Points m)) = 1))"
proof (intro conjI allI impI)
  fix m
  assume "fst (fst (MountPoints sys contextPath contextAbsPath paths hidden s)) = Some m"
  then have "Points m = produced sys contextPath contextAbsPath paths hidden s"
    by (rule produced_Points)
  then show "distinct (map AbsPath (Points m))"
    by (simp add: produced_distinct)
  then show "length (filter (\<lambda>mpt. AbsPath mpt = path) (Points m)) \<le> 1"
    by (rule distinct_filter_le_1)
next
  assume "path \<in> set pre"
  then show "MountPoints sys contextPath contextAbsPath (pre @ path # post) hidden s =
      MountPoints sys contextPath contextAbsPath (pre @ post) hidden s"
    by (simp add: MountPoints_def mountAll_drop_repeated Let_def
             split: sum.splits prod.splits option.splits)
next
  assume a: "rootReady sys contextAbsPath s = Some s0 \<and> paths = pre @ path # post \<and> path \<notin> set pre \<and>
    s1 = snd (linkPaths sys contextPath contextAbsPath hidden pre Map.empty [] s0) \<and>
    os_Stat sys s1 path = Inr info \<and>
    (hidden \<or> \<not> strings_HasPrefix (filepath_Base path) ''.'') \<and>
    os_Symlink sys s1 path (filepath_Join [contextAbsPath, filepath_Base path]) = (err, s2) \<and>
    (err = None \<or> os_IsExist (the err))"
  let ?mpt = "pointFor contextPath contextAbsPath path err"
  let ?pts = "produced sys contextPath contextAbsPath paths hidden s"
  have mem: "?mpt \<in> set ?pts"
  proof (rule accepted_path_produced [where pre = pre and post = post and ?s1.0 = s1
        and ?s0.0 = s0 and info = info and ?s2.0 = s2])
    show "rootReady sys contextAbsPath s = Some s0" "paths = pre @ path # post" "path \<notin> set pre"
      "s1 = snd (linkPaths sys contextPath contextAbsPath hidden pre Map.empty [] s0)"
      "os_Stat sys s1 path = Inr info" "hidden \<or> \<not> strings_HasPrefix (filepath_Base path) ''.''"
      "os_Symlink sys s1 path (filepath_Join [contextAbsPath, filepath_Base path]) = (err, s2)"
      "err = None \<or> os_IsExist (the err)"
      using a by blast+
  qed
  then have "?pts \<noteq> []"
    by auto
  then obtain m where m: "fst (fst (MountPoints sys contextPath contextAbsPath paths hidden s)) = Some m"
    and pts: "Points m = ?pts"
    by (simp add: MountPoints_mount)
  have "length (filter (\<lambda>mpt. AbsPath mpt = AbsPath ?mpt) ?pts) = 1"
    using produced_distinct mem by (rule distinct_filter_eq_1)
  then have "length (filter (\<lambda>mpt. AbsPath mpt = path) (Points m)) = 1"
    by (simp add: pts pointFor_def)
  with m show "\<exists>m. fst (fst (MountPoints sys contextPath contextAbsPath paths hidden s)) = Some m \<and>
           length (filter (\<lambda>mpt. AbsPath mpt = path) (Points m)) = 1"
    by blast
qed

theorem repeated_paths_are_skipped_witness:
  "(\<exists>m. fst (fst (MountPoints unix [] ''/work/.gd/mnt''
                      [''/home/u/docs'', ''/home/u/.secret'', ''/home/u/docs''] False fs_home)) = Some m \<and>
        length (filter (\<lambda>mpt. AbsPath mpt = ''/home/u/docs'') (Points m)) = 1) \<and>
   ''/home/u/docs'' \<in> set [''/home/u/docs'', ''/home/u/.secret''] \<and>
   MountPoints unix [] ''/work/.gd/mnt''
     ([''/home/u/docs'', ''/home/u/.secret''] @ ''/home/u/docs'' # []) False fs_home =
   MountPoints unix [] ''/work/.gd/mnt'' ([''/home/u/docs'', ''/home/u/.secret''] @ []) False fs_home"
proof -
  let ?s0 = "fs_home @ [(''/work'', Directory), (''/work/.gd'', Directory), (''/work/.gd/mnt'', Directory)]"
  let ?s2 = "?s0 @ [(''/work/.gd/mnt/docs'', Link ''/home/u/docs'')]"
  have 1: "rootReady unix ''/work/.gd/mnt'' fs_home = Some ?s0 \<and>
    [''/home/u/docs'', ''/home/u/.secret'', ''/home/u/docs''] =
      [] @ ''/home/u/docs'' # [''/home/u/.secret'', ''/home/u/docs''] \<and>
    ''/home/u/docs'' \<notin> set [] \<and>
    ?s0 = snd (linkPaths unix [] ''/work/.gd/mnt'' False [] Map.empty [] ?s0) \<and>
    os_Stat unix ?s0 ''/home/u/docs'' = Inr (FileInfo True) \<and>
    (False \<or> \<not> strings_HasPrefix (filepath_Base ''/home/u/docs'') ''.'') \<and>
    os_Symlink unix ?s0 ''/home/u/docs'' (filepath_Join [''/work/.gd/mnt'', filepath_Base ''/home/u/docs'']) =
      (None, ?s2) \<and>
    (None = None \<or> os_IsExist (the None))"
    by code_simp
  have 2: "''/home/u/docs'' \<in> set [''/home/u/docs'', ''/home/u/.secret'']"
    by simp
  have 3: "\<exists>m. fst (fst (MountPoints unix [] ''/work/.gd/mnt''
                      [''/home/u/docs'', ''/home/u/.secret'', ''/home/u/docs''] False fs_home)) = Some m \<and>
        length (filter (\<lambda>mpt. AbsPath mpt = ''/home/u/docs'') (Points m)) = 1"
    by (rule repeated_paths_are_skipped [THEN conjunct2, THEN conjunct2, THEN mp, OF 1])
  have 4: "MountPoints unix [] ''/work/.gd/mnt''
     ([''/home/u/docs'', ''/home/u/.secret''] @ ''/home/u/docs'' # []) False fs_home =
   MountPoints unix [] ''/work/.gd/mnt'' ([''/home/u/docs'', ''/home/u/.secret''] @ []) False fs_home"
    by (rule repeated_paths_are_skipped [THEN conjunct2, THEN conjunct1, THEN mp, OF 2])
  from 2 3 4 show ?thesis
    by blast
qed

text \<open>
  As stated, C7 promises exactly one mount point for a path that is passed more than once.
  A path that does not exist yields none, passed once or twice.
\<close>

theorem missing_path_given_twice_yields_none:
  "produced unix [] ''/m'' [''/nope'', ''/nope''] False [] = [] \<and>
   fst (fst (MountPoints unix [] ''/m'' [''/nope'', ''/nope''] False [])) = None"
  by code_simp

text \<open>
  C8. With \<open>hidden = False\<close>, no mount point of the returned \<^verbatim>\<open>Mount\<close> has a source path
  whose base name begins with a dot. With \<open>hidden = True\<close>, a path with such a base name
  gets a mount point when it is the first occurrence of its string, \<^verbatim>\<open>os.Stat\<close> finds it
  and the link is created or collides.
\<close>
theorem hidden_paths_are_filtered:
  "(\<forall>m mpt. fst (fst (MountPoints sys contextPath contextAbsPath paths False s)) = Some m \<and>
             mpt \<in> set (Points m) \<longrightarrow>
             \<not> strings_HasPrefix (filepath_Base (AbsPath mpt)) ''.'') \<and>
   (rootReady sys contextAbsPath s = Some s0 \<and> paths = pre @ path # post \<and> path \<notin> set pre \<and>
    s1 = snd (linkPaths sys contextPath contextAbsPath True pre Map.empty [] s0) \<and>
    os_Stat sys s1 path = Inr info \<and>
    os_Symlink sys s1 path (filepath_Join [contextAbsPath, filepath_Base path]) = (err, s2) \<and>
    (err = None \<or> os_IsExist (the err)) \<and>
    strings_HasPrefix (filepath_Base path) ''.'' \<longrightarrow>
      (\<exists>m mpt. fst (fst (MountPoints sys contextPath contextAbsPath paths True s)) = Some m \<and>
               mpt \<in> set (Points m) \<and> AbsPath mpt = path \<and> CanClean mpt = (err = None)))"
proof (intro conjI allI impI)
  fix m mpt
  assume a: "fst (fst (MountPoints sys contextPath contextAbsPath paths False s)) = Some m \<and>
             mpt \<in> set (Points m)"
  then have "mpt \<in> set (produced sys contextPath contextAbsPath paths False s)"
    using produced_Points [OF a [THEN conjunct1]] by simp
  moreover have "\<forall>mpt\<in>set (produced sys contextPath contextAbsPath paths False s).
      False \<or> \<not> strings_HasPrefix (filepath_Base (AbsPath mpt)) ''.''"
    unfolding produced_def
    by (cases "rootReady sys contextAbsPath s") (simp, simp only: option.case, rule linkPaths_shown, simp)
  ultimately show "\<not> strings_HasPrefix (filepath_Base (AbsPath mpt)) ''.''"
    by blast
next
  assume a: "rootReady sys contextAbsPath s = Some s0 \<and> paths = pre @ path # post \<and> path \<notin> set pre \<and>
    s1 = snd (linkPaths sys contextPath contextAbsPath True pre Map.empty [] s0) \<and>
    os_Stat sys s1 path = Inr info \<and>
    os_Symlink sys s1 path (filepath_Join [contextAbsPath, filepath_Base path]) = (err, s2) \<and>
    (err = None \<or> os_IsExist (the err)) \<and>
    strings_HasPrefix (filepath_Base path) ''.''"
  let ?mpt = "pointFor contextPath contextAbsPath path err"
  have mem: "?mpt \<in> set (produced sys contextPath contextAbsPath paths True s)"
  proof (rule accepted_path_produced [where pre = pre and post = post and ?s1.0 = s1
        and ?s0.0 = s0 and info = info and ?s2.0 = s2])
    show "rootReady sys contextAbsPath s = Some s0" "paths = pre @ path # post" "path \<notin> set pre"
      "s1 = snd (linkPaths sys contextPath contextAbsPath True pre Map.empty [] s0)"
      "os_Stat sys s1 path = Inr info" "True \<or> \<not> strings_HasPrefix (filepath_Base path) ''.''"
      "os_Symlink sys s1 path (filepath_Join [contextAbsPath, filepath_Base path]) = (err, s2)"
      "err = None \<or> os_IsExist (the err)"
      using a by blast+
  qed
  then have "produced sys contextPath contextAbsPath paths True s \<noteq> []"
    by auto
  then obtain m where m: "fst (fst (MountPoints sys contextPath contextAbsPath paths True s)) = Some m"
    and pts: "Points m = produced sys contextPath contextAbsPath paths True s"
    by (simp add: MountPoints_mount)
  have "AbsPath ?mpt = path" "CanClean ?mpt = (err = None)"
    by (simp_all add: pointFor_def)
  with m pts mem show "\<exists>m mpt. fst (fst (MountPoints sys contextPath contextAbsPath paths True s)) = Some m \<and>
               mpt \<in> set (Points m) \<and> AbsPath mpt = path \<and> CanClean mpt = (err = None)"
    by metis
qed


theorem hidden_paths_are_filtered_witness:
  "(strings_HasPrefix (filepath_Base ''/home/u/.secret'') ''.'' \<and>
    map AbsPath (produced unix [] ''/home/u/mnt'' [''/home/u/.secret'', ''/home/u/docs''] False fs_home) =
      [''/home/u/docs''] \<and>
    \<not> strings_HasPrefix (filepath_Base ''/home/u/docs'') ''.'') \<and>
   (\<exists>m mpt. fst (fst (MountPoints unix [] ''/home/u/mnt'' [''/home/u/.secret''] True fs_home)) = Some m \<and>
            mpt \<in> set (Points m) \<and> AbsPath mpt = ''/home/u/.secret'' \<and> CanClean mpt)"
proof -
  let ?m = "\<lparr>CreatedMountDir = ''/home/u/mnt'', ShortestMountRoot = ''/home/u/mnt'',
              Points = [\<lparr>CanClean = True, Name = ''/docs'', AbsPath = ''/home/u/docs'',
                          MountPath = ''/home/u/mnt/docs''\<rparr>]\<rparr>"
  have 1: "fst (fst (MountPoints unix [] ''/home/u/mnt'' [''/home/u/.secret'', ''/home/u/docs'']
                      False fs_home)) = Some ?m"
    by code_simp
  have 2: "map AbsPath (produced unix [] ''/home/u/mnt'' [''/home/u/.secret'', ''/home/u/docs''] False fs_home) =
      [''/home/u/docs'']"
    by code_simp
  have 3: "strings_HasPrefix (filepath_Base ''/home/u/.secret'') ''.''"
    by code_simp
  have 4: "rootReady unix ''/home/u/mnt'' fs_home = Some (fs_home @ [(''/home/u/mnt'', Directory)]) \<and>
    [''/home/u/.secret''] = [] @ ''/home/u/.secret'' # [] \<and> ''/home/u/.secret'' \<notin> set [] \<and>
    fs_home @ [(''/home/u/mnt'', Directory)] =
      snd (linkPaths unix [] ''/home/u/mnt'' True [] Map.empty [] (fs_home @ [(''/home/u/mnt'', Directory)])) \<and>
    os_Stat unix (fs_home @ [(''/home/u/mnt'', Directory)]) ''/home/u/.secret'' = Inr (FileInfo False) \<and>
    os_Symlink unix (fs_home @ [(''/home/u/mnt'', Directory)]) ''/home/u/.secret''
       (filepath_Join [''/home/u/mnt'', filepath_Base ''/home/u/.secret'']) =
      (None, fs_home @ [(''/home/u/mnt'', Directory), (''/home/u/mnt/.secret'', Link ''/home/u/.secret'')]) \<and>
    (None = None \<or> os_IsExist (the None)) \<and>
    strings_HasPrefix (filepath_Base ''/home/u/.secret'') ''.''"
    by code_simp
  have "mpt \<in> set (Points ?m) \<longrightarrow> \<not> strings_HasPrefix (filepath_Base (AbsPath mpt)) ''.''" for mpt
    using hidden_paths_are_filtered [THEN conjunct1, rule_format, of unix "[]" "''/home/u/mnt''"
        "[''/home/u/.secret'', ''/home/u/docs'']" fs_home ?m mpt] 1
    by simp
  then have 5: "\<not> strings_HasPrefix (filepath_Base ''/home/u/docs'') ''.''"
    by simp
  have 6: "\<exists>m mpt. fst (fst (MountPoints unix [] ''/home/u/mnt'' [''/home/u/.secret''] True fs_home)) = Some m \<and>
            mpt \<in> set (Points m) \<and> AbsPath mpt = ''/home/u/.secret'' \<and> CanClean mpt = (None = (None :: error option))"
    by (rule hidden_paths_are_filtered [THEN conjunct2, THEN mp, OF 4])
  from 2 3 5 6 show ?thesis
    by simp
qed

section \<open>The walk to the highest non-existent ancestor\<close>

lemma parentOf_shorter:
  assumes "p \<noteq> []"
  shows "length (parentOf p) < length p"
proof -
  define t where "t = strings_TrimRight p PathSeparator"
  have t_le: "length t \<le> length p"
    unfolding t_def strings_TrimRight_def
    by (metis length_dropWhile_le length_rev)
  have "length (fst (filepath_Split t)) < length p"
  proof (cases "t = []")
    case True
    with assms show ?thesis
      by (simp add: filepath_Split_def)
  next
    case False
    then have "rev t \<noteq> []"
      by simp
    moreover have "rev t = dropWhile (\<lambda>c. c \<in> set PathSeparator) (rev p)"
      by (simp add: t_def strings_TrimRight_def)
    ultimately have "hd (rev t) \<notin> set PathSeparator"
      by (metis hd_dropWhile)
    then have "\<not> IsPathSeparator (hd (rev t))"
      by (simp add: IsPathSeparator_def PathSeparator_def)
    with \<open>rev t \<noteq> []\<close> have "takeWhile (\<lambda>c. \<not> IsPathSeparator c) (rev t) \<noteq> []"
      by (cases "rev t") auto
    then have "0 < length (takeWhile (\<lambda>c. \<not> IsPathSeparator c) (rev t))"
      by simp
    moreover have "0 < length t"
      using False by simp
    ultimately have "length t - length (takeWhile (\<lambda>c. \<not> IsPathSeparator c) (rev t)) < length t"
      by arith
    with t_le show ?thesis
      by (simp add: filepath_Split_def Let_def)
  qed
  then show ?thesis
    by (simp add: parentOf_def t_def)
qed

lemma Exists_Stat:
  "Exists sys s p = (\<exists>fInfo. os_Stat sys s p = Inr fInfo)"
  by (cases "os_Stat sys s p") (simp_all add: Exists_def)

lemma loop_one_step:
  "p \<noteq> [] \<Longrightarrow> \<not> Exists sys s p \<Longrightarrow>
   LeastNonExistantRoot_loop sys s last_seen p = LeastNonExistantRoot_loop sys s p (parentOf p)"
  by (cases "os_Stat sys s p") (simp_all add: Exists_def loop_missing)

lemma loop_stops:
  "p = [] \<or> Exists sys s p \<Longrightarrow> LeastNonExistantRoot_loop sys s last_seen p = last_seen"
  by (auto simp: Exists_Stat loop_empty_path loop_existing)

lemma loop_last_missing:
  "length p \<le> n \<Longrightarrow>
   LeastNonExistantRoot_loop sys s last_seen p =
     (let missing = takeWhile (\<lambda>q. \<not> Exists sys s q) (ancestors_upto n p)
      in if missing = [] then last_seen else last missing)"
proof (induction n arbitrary: p last_seen)
  case 0
  then show ?case by (simp add: loop_empty_path)
next
  case (Suc n)
  show ?case
  proof (cases "p = [] \<or> Exists sys s p")
    case True
    then show ?thesis
      by (auto simp: loop_stops)
  next
    case False
    then have p: "p \<noteq> []" and missing: "\<not> Exists sys s p"
      by simp_all
    from p Suc.prems have "length (parentOf p) \<le> n"
      using parentOf_shorter [OF p] by simp
    then have "LeastNonExistantRoot_loop sys s p (parentOf p) =
      (let missing = takeWhile (\<lambda>q. \<not> Exists sys s q) (ancestors_upto n (parentOf p))
       in if missing = [] then p else last missing)"
      by (rule Suc.IH)
    with p missing show ?thesis
      by (simp add: loop_one_step Let_def)
  qed
qed

lemma loop_result:
  "length p \<le> n \<Longrightarrow>
   (LeastNonExistantRoot_loop sys s last_seen p = last_seen \<and> (p = [] \<or> Exists sys s p)) \<or>
   (LeastNonExistantRoot_loop sys s last_seen p \<in> set (ancestors_upto n p) \<and>
    \<not> Exists sys s (LeastNonExistantRoot_loop sys s last_seen p) \<and>
    (parentOf (LeastNonExistantRoot_loop sys s last_seen p) = [] \<or>
     Exists sys s (parentOf (LeastNonExistantRoot_loop sys s last_seen p))))"
proof (induction n arbitrary: p last_seen)
  case 0
  then show ?case by (simp add: loop_empty_path)
next
  case (Suc n)
  show ?case
  proof (cases "p = [] \<or> Exists sys s p")
    case True
    then show ?thesis
      by (simp add: loop_stops)
  next
    case False
    then have p: "p \<noteq> []" and missing: "\<not> Exists sys s p"
      by simp_all
    from p Suc.prems have "length (parentOf p) \<le> n"
      using parentOf_shorter [OF p] by simp
    from Suc.IH [OF this, of p] p missing show ?thesis
      by (auto simp: loop_one_step)
  qed
qed

text \<open>
  C4. \<^verbatim>\<open>LeastNonExistantRoot\<close> returns the last of the paths that do not exist at the
  front of the chain of ancestors of its argument (the paths the walk visits before it
  finds an existing entry or runs out of path), and the empty string when there is none,
  as when the argument itself exists. A non-empty result is one of the ancestors, does not
  exist, and its parent exists or is empty. A path exists when \<^verbatim>\<open>os.Stat\<close> returns a
  \<^verbatim>\<open>FileInfo\<close> for it, which is the test of the source.
\<close>
theorem LeastNonExistantRoot_is_topmost_missing:
  "LeastNonExistantRoot sys s p =
     (let missing = takeWhile (\<lambda>q. \<not> Exists sys s q) (ancestors p)
      in if missing = [] then [] else last missing) \<and>
   (Exists sys s p \<longrightarrow> LeastNonExistantRoot sys s p = []) \<and>
   (LeastNonExistantRoot sys s p \<noteq> [] \<longrightarrow>
      LeastNonExistantRoot sys s p \<in> set (ancestors p) \<and>
      \<not> Exists sys s (LeastNonExistantRoot sys s p) \<and>
      (parentOf (LeastNonExistantRoot sys s p) = [] \<or>
       Exists sys s (parentOf (LeastNonExistantRoot sys s p))))"
proof (intro conjI impI)
  show "LeastNonExistantRoot sys s p =
     (let missing = takeWhile (\<lambda>q. \<not> Exists sys s q) (ancestors p)
      in if missing = [] then [] else last missing)"
    unfolding LeastNonExistantRoot_def ancestors_def
    by (rule loop_last_missing) simp
next
  assume "Exists sys s p"
  then show "LeastNonExistantRoot sys s p = []"
    by (simp add: LeastNonExistantRoot_def loop_stops)
next
  assume nonempty: "LeastNonExistantRoot sys s p \<noteq> []"
  have "length p \<le> length p"
    by simp
  from loop_result [OF this, of sys s "[]"] nonempty
  show "LeastNonExistantRoot sys s p \<in> set (ancestors p)"
    and "\<not> Exists sys s (LeastNonExistantRoot sys s p)"
    and "parentOf (LeastNonExistantRoot sys s p) = [] \<or>
         Exists sys s (parentOf (LeastNonExistantRoot sys s p))"
    by (auto simp: LeastNonExistantRoot_def ancestors_def)
qed

theorem LeastNonExistantRoot_is_topmost_missing_witness:
  "(ancestors ''/work/.gd/mnt'' = [''/work/.gd/mnt'', ''/work/.gd/'', ''/work/'', ''/''] \<and>
    LeastNonExistantRoot unix fs_home ''/work/.gd/mnt'' = ''/work/'' \<and>
    \<not> Exists unix fs_home ''/work/'' \<and> parentOf ''/work/'' = ''/'' \<and> Exists unix fs_home ''/'') \<and>
   (Exists unix fs_home ''/home/u'' \<and> LeastNonExistantRoot unix fs_home ''/home/u'' = [])"
proof -
  have 1: "ancestors ''/work/.gd/mnt'' = [''/work/.gd/mnt'', ''/work/.gd/'', ''/work/'', ''/'']"
    by code_simp
  have 2: "takeWhile (\<lambda>q. \<not> Exists unix fs_home q) [''/work/.gd/mnt'', ''/work/.gd/'', ''/work/'', ''/''] =
           [''/work/.gd/mnt'', ''/work/.gd/'', ''/work/'']"
    by code_simp
  have 3: "Exists unix fs_home ''/home/u''"
    by code_simp
  have 4: "parentOf ''/work/'' = ''/''"
    by code_simp
  note a = LeastNonExistantRoot_is_topmost_missing [of unix fs_home "''/work/.gd/mnt''"]
  note b = LeastNonExistantRoot_is_topmost_missing [of unix fs_home "''/home/u''"]
  have 5: "LeastNonExistantRoot unix fs_home ''/work/.gd/mnt'' = ''/work/''"
    using a [THEN conjunct1, unfolded 1 2] by simp
  have 6: "\<not> Exists unix fs_home ''/work/'' \<and> (parentOf ''/work/'' = [] \<or> Exists unix fs_home (parentOf ''/work/''))"
    using a [THEN conjunct2, THEN conjunct2] unfolding 5 by simp
  have 7: "LeastNonExistantRoot unix fs_home ''/home/u'' = []"
    using b [THEN conjunct2, THEN conjunct1] 3 by simp
  from 1 3 4 5 6 7 show ?thesis
    by simp
qed

section \<open>Initialising a context: the error of stat\<close>

text \<open>
  C5. The claim is that an error of \<^verbatim>\<open>os.Stat\<close> on the marker path that tells neither
  existence nor non-existence is returned to the caller. The source returns at that point
  without having assigned the error to its result \<^verbatim>\<open>err\<close>: the caller gets the marker
  path, \<open>firstInit = False\<close>, no context and no error, and nothing is created.
\<close>
theorem Initialize_drops_stat_error:
  assumes "os_Stat sys s (gdPath absPath) = Inl sErr"
    and "\<not> os_IsNotExist sErr" and "\<not> os_IsExist sErr"
  shows "Initialize sys js absPath s = ((gdPath absPath, False, None, None), s)"
  using assms by (simp add: Initialize_def)

theorem Initialize_drops_stat_error_witness:
  "os_Stat unix fs_file (gdPath ''/f'') = Inl (PathError ENOTDIR) \<and>
   Initialize unix json_plain ''/f'' fs_file = ((''/f/.gd'', False, None, None), fs_file)"
proof -
  have 1: "os_Stat unix fs_file (gdPath ''/f'') = Inl (PathError ENOTDIR)"
    by code_simp
  have 2: "\<not> os_IsNotExist (PathError ENOTDIR)" "\<not> os_IsExist (PathError ENOTDIR)"
    by simp_all
  have 3: "gdPath ''/f'' = ''/f/.gd''"
    by code_simp
  show ?thesis
    using Initialize_drops_stat_error [OF 1 2, of json_plain] 1 unfolding 3 by simp
qed

text \<open>
  The other parts of C5 hold: \<open>firstInit\<close> is returned true exactly when \<^verbatim>\<open>os.Stat\<close> reported
  the marker path as missing, and a marker path that is not a directory fails with the
  not-a-directory error.
\<close>

lemma Initialize_firstInit:
  "fst (snd (fst (Initialize sys js absPath s))) =
     (case os_Stat sys s (gdPath absPath) of Inl sErr \<Rightarrow> os_IsNotExist sErr | Inr sInfo \<Rightarrow> False)"
  by (auto simp: Initialize_def initContext_def Let_def split: sum.splits prod.splits option.splits)

lemma Initialize_not_a_directory:
  assumes "os_Stat sys s (gdPath absPath) = Inr sInfo" and "\<not> IsDir sInfo"
  shows "Initialize sys js absPath s =
           ((gdPath absPath, False, None,
             Some (ErrorString (gdPath absPath @ '' is not a directory''))), s)"
  using assms by (simp add: Initialize_def Let_def)

section \<open>Cleaned paths\<close>

lemma elements_nonempty: "elements x \<noteq> []"
  by (induction x) (auto split: list.splits)
















section \<open>The reference file system is a file store\<close>




















section \<open>Reading and writing the indices\<close>










end
